theory Spec2Isabelle
  imports Main
begin

section \<open>Strings of the host language\<close>

text \<open>
  A string of the program is a list of characters, one \<^typ>\<open>char\<close> per UTF-16 code unit,
  for the strings whose code units are below 256. The loop of \<^verbatim>\<open>splitWhitespace\<close>
  counts code points and slices by code units; on these strings the two agree.
\<close>

definition backslash :: char where
  "backslash = CHR 0x5C"

definition squote :: char where
  "squote = CHR 0x27"

definition dquote :: char where
  "dquote = CHR 0x22"

definition space :: char where
  "space = CHR 0x20"

text \<open>\<^verbatim>\<open>str.slice(start, stop)\<close> for indices within the string; empty when
  \<^verbatim>\<open>stop <= start\<close>.\<close>

definition slice :: "string \<Rightarrow> nat \<Rightarrow> nat \<Rightarrow> string" where
  "slice str start stop = take (stop - start) (drop start str)"

section \<open>splitWhitespace (compdb.ts, lines 412-456)\<close>

text \<open>
  The local variables of the function, as one record. \<open>idx\<close> is the source's counter
  \<^verbatim>\<open>i\<close>.
\<close>

record splitter =
  quoteChar :: "char option"
  shouldEscape :: bool
  strs :: "string list"
  idx :: nat
  strStart :: nat

definition splitInit :: splitter where
  "splitInit = \<lparr>quoteChar = None, shouldEscape = False, strs = [], idx = 0, strStart = 0\<rparr>"

text \<open>The quote cases of the \<^verbatim>\<open>switch\<close>: an unescaped quote character closes the
  context it opened and otherwise becomes the current quote character.\<close>

definition toggleQuote :: "char \<Rightarrow> splitter \<Rightarrow> splitter" where
  "toggleQuote q st =
     (if \<not> shouldEscape st
      then (if quoteChar st = Some q then st\<lparr>quoteChar := None\<rparr>
            else st\<lparr>quoteChar := Some q\<rparr>)
      else st)"

text \<open>The space case: outside a quote context the slice since \<open>strStart\<close> is pushed when
  it is not empty, and the next token starts after the space.\<close>

definition splitAtSpace :: "string \<Rightarrow> splitter \<Rightarrow> splitter" where
  "splitAtSpace str st =
     (if quoteChar st = None
      then (let sl = slice str (strStart st) (idx st)
            in st\<lparr>strs := (if length sl > 0 then strs st @ [sl] else strs st),
                   strStart := idx st + 1\<rparr>)
      else st)"

text \<open>One iteration of the \<^verbatim>\<open>for (let ch of str)\<close> loop: the \<^verbatim>\<open>switch\<close>, then
  \<^verbatim>\<open>i++\<close>.\<close>

definition splitStep :: "string \<Rightarrow> splitter \<Rightarrow> char \<Rightarrow> splitter" where
  "splitStep str st ch =
     (let st' =
        (if ch = backslash then st\<lparr>shouldEscape := \<not> shouldEscape st\<rparr>
         else if ch = squote then toggleQuote squote st
         else if ch = dquote then toggleQuote dquote st
         else if ch = space then splitAtSpace str st
         else st)
      in st'\<lparr>idx := idx st' + 1\<rparr>)"

definition splitFinish :: "string \<Rightarrow> splitter \<Rightarrow> string list" where
  "splitFinish str st =
     (let sl = slice str (strStart st) (idx st)
      in if length sl > 0 then strs st @ [sl] else strs st)"

definition splitWhitespace :: "string \<Rightarrow> string list" where
  "splitWhitespace str = splitFinish str (foldl (splitStep str) splitInit str)"

section \<open>String.prototype.replace with a string pattern\<close>

text \<open>
  \<^verbatim>\<open>s.replace(pat, rep)\<close> with a string (not a regular expression) as pattern replaces the
  first occurrence of \<open>pat\<close> in \<open>s\<close> and nothing else; without an occurrence it returns
  \<open>s\<close>. The replacement strings of the program contain no \<^verbatim>\<open>$\<close>, so no replacement
  pattern is expanded.
\<close>

fun replaceFirst :: "string \<Rightarrow> string \<Rightarrow> string \<Rightarrow> string" where
  "replaceFirst pat rep [] = (if pat = [] then rep else [])"
| "replaceFirst pat rep (c # cs) =
     (if take (length pat) (c # cs) = pat then rep @ drop (length pat) (c # cs)
      else c # replaceFirst pat rep cs)"

text \<open>\<^verbatim>\<open>s.endsWith(suf)\<close>.\<close>

definition endsWith :: "string \<Rightarrow> string \<Rightarrow> bool" where
  "endsWith s suf = (length suf \<le> length s \<and> drop (length s - length suf) s = suf)"

section \<open>Compile commands (compdb.ts, lines 9-14, 129-135 and 318-336)\<close>

text \<open>The interface \<^verbatim>\<open>CompileCommand\<close>; \<open>file'\<close> is its field \<^verbatim>\<open>file\<close>.\<close>

record CompileCommand =
  directory :: string
  command :: string
  file' :: string
  arguments :: "string list"

text \<open>
  \<^verbatim>\<open>args[0] = directory + '/' + args[0]\<close>. On an empty array the read of
  \<^verbatim>\<open>args[0]\<close> gives \<^verbatim>\<open>undefined\<close>, which the concatenation prints, and the write
  extends the array to length one.
\<close>

definition joinFirst :: "string \<Rightarrow> string list \<Rightarrow> string list" where
  "joinFirst dir args =
     (case args of
        [] \<Rightarrow> [dir @ ''/'' @ ''undefined'']
      | a # rest \<Rightarrow> (dir @ ''/'' @ a) # rest)"

text \<open>
  The callback of \<^verbatim>\<open>args.filter\<close> with its captured variable \<^verbatim>\<open>isOutfile\<close>: the list is
  walked from left to right, the flag is the first argument.
\<close>

fun filterArgs :: "bool \<Rightarrow> string list \<Rightarrow> string list" where
  "filterArgs isOutfile [] = []"
| "filterArgs isOutfile (arg # rest) =
     (if \<not> isOutfile
      then (if arg = ''-o'' then filterArgs True rest
            else if arg \<noteq> ''-c'' \<and> arg \<noteq> ''-g'' then arg # filterArgs False rest
            else filterArgs False rest)
      else filterArgs False rest)"

definition constructCompileCommand :: "string \<Rightarrow> string list \<Rightarrow> string \<Rightarrow> string list" where
  "constructCompileCommand cmd args dir =
     filterArgs False (joinFirst dir (if length cmd > 0 then splitWhitespace cmd else args))"

text \<open>The body of the loop of \<^verbatim>\<open>preprocess\<close>, for one entry.\<close>

definition preprocessEntry :: "CompileCommand \<Rightarrow> CompileCommand" where
  "preprocessEntry ccommand =
     ccommand\<lparr>arguments :=
                 filter (\<lambda>arg. arg \<noteq> file' ccommand)
                   (constructCompileCommand (command ccommand) (arguments ccommand)
                      (directory ccommand)),
               command := []\<rparr>"

definition preprocess :: "CompileCommand list \<Rightarrow> CompileCommand list" where
  "preprocess cmds = map preprocessEntry cmds"

text \<open>The tokens of an entry: the value of \<^verbatim>\<open>args\<close> after lines 319-321, when
  \<^verbatim>\<open>constructCompileCommand\<close> is called for the entry.\<close>

definition entryTokens :: "CompileCommand \<Rightarrow> string list" where
  "entryTokens c = (if length (command c) > 0 then splitWhitespace (command c) else arguments c)"

section \<open>Loading the database (compdb.ts, lines 112-127)\<close>

datatype error =
  ReadOrParseError
| CannotFindCompilationCommand
| OperationCancelled
| CompilationFailed
| ReaddirError

text \<open>
  Reading the file and \<^verbatim>\<open>JSON.parse\<close> belong to the platform: their outcome for the
  database file is an input of the model, either the exception they raise or the parsed
  array, taken at the declared type \<^verbatim>\<open>CompileCommand[]\<close>.
\<close>

type_synonym parsed = "error + CompileCommand list"

text \<open>The loop filling \<^verbatim>\<open>ccommands\<close>: a later entry for the same file replaces an
  earlier one.\<close>

definition indexCommands :: "CompileCommand list \<Rightarrow> (string \<rightharpoonup> CompileCommand)" where
  "indexCommands cmds = foldl (\<lambda>m c. m(file' c \<mapsto> c)) Map.empty cmds"

definition load :: "parsed \<Rightarrow> error + (string \<rightharpoonup> CompileCommand)" where
  "load p =
     (case p of
        Inl e \<Rightarrow> Inl e
      | Inr cmds \<Rightarrow> Inr (indexCommands (preprocess cmds)))"

section \<open>The database instance (compdb.ts, lines 18-69)\<close>

text \<open>
  A \<^verbatim>\<open>Uri\<close> is an object: \<open>uref\<close> is its identity (its address), \<open>path\<close> its text.
  \<^verbatim>\<open>Uri.parse\<close> and \<^verbatim>\<open>Uri.joinPath\<close> build a new object at every call; \<open>newUri\<close>
  takes the next free address.
\<close>

record Uri =
  uref :: nat
  path :: string

text \<open>
  A cancellation token source is named by its address too. The fields
  \<^verbatim>\<open>cxxFiltExeCache\<close> and \<^verbatim>\<open>watcher\<close> of the class are left out: nothing stated
  below reads them.
\<close>

record CompilationDatabase =
  compileCancellationTokenSource :: "nat option"
  compileCommandsFile :: Uri
  commands :: "string \<rightharpoonup> CompileCommand"

text \<open>
  \<^verbatim>\<open>get\<close>: the configured build directory, after \<^verbatim>\<open>resolvePath\<close>, is the parameter
  \<open>buildDirectory\<close>; \<open>fsPath\<close> is \<^verbatim>\<open>srcUri.fsPath\<close>.
\<close>

definition get :: "CompilationDatabase \<Rightarrow> string \<Rightarrow> string \<Rightarrow> CompileCommand option" where
  "get db buildDirectory fsPath =
     (let relativeFp = replaceFirst (buildDirectory @ ''/'') [] fsPath
      in commands db relativeFp)"

text \<open>
  The handler installed with \<^verbatim>\<open>watcher.onDidChange\<close>: the assignment to
  \<^verbatim>\<open>this.commands\<close> happens after \<^verbatim>\<open>load\<close> has returned; when \<^verbatim>\<open>load\<close> throws, the
  handler ends there. The argument \<open>p\<close> is what reading and parsing the file gives at the
  time of the signal.
\<close>

definition onDidChange :: "parsed \<Rightarrow> CompilationDatabase \<Rightarrow> CompilationDatabase" where
  "onDidChange p db =
     (case load p of
        Inl e \<Rightarrow> db
      | Inr m \<Rightarrow> db\<lparr>commands := m\<rparr>)"

definition onDidChanges :: "parsed list \<Rightarrow> CompilationDatabase \<Rightarrow> CompilationDatabase" where
  "onDidChanges ps db = foldl (\<lambda>d p. onDidChange p d) db ps"

section \<open>The registry (compdb.ts, lines 25 and 44-59)\<close>

text \<open>
  \<^verbatim>\<open>compdbs\<close> is a \<^verbatim>\<open>Map<Uri, CompilationDatabase>\<close>. A \<^verbatim>\<open>Map\<close> compares keys that
  are objects by identity, so \<open>mapGet\<close> and \<open>mapSet\<close> compare \<open>uref\<close>. The entries are
  kept in insertion order.
\<close>

record process =
  nextUri :: nat
  compdbs :: "(Uri \<times> CompilationDatabase) list"

fun mapGet :: "(Uri \<times> 'v) list \<Rightarrow> Uri \<Rightarrow> 'v option" where
  "mapGet [] k = None"
| "mapGet ((k', v) # m) k = (if uref k' = uref k then Some v else mapGet m k)"

fun mapSet :: "(Uri \<times> 'v) list \<Rightarrow> Uri \<Rightarrow> 'v \<Rightarrow> (Uri \<times> 'v) list" where
  "mapSet [] k v = [(k, v)]"
| "mapSet ((k', v') # m) k v =
     (if uref k' = uref k then (k', v) # m else (k', v') # mapSet m k v)"

definition newUri :: "string \<Rightarrow> process \<Rightarrow> Uri \<times> process" where
  "newUri p st = (\<lparr>uref = nextUri st, path = p\<rparr>, st\<lparr>nextUri := nextUri st + 1\<rparr>)"

text \<open>
  \<^verbatim>\<open>CompilationDatabase.for\<close>. \<open>buildDirectory\<close> is the resolved build directory of the
  source file, \<open>p\<close> what reading and parsing its database file gives. The join of the
  directory with the file name is written for a directory without a trailing separator.
  The call is taken as one step, its \<^verbatim>\<open>await\<close> included: the calls considered below
  follow one another.
\<close>

definition compdbFor ::
  "string \<Rightarrow> parsed \<Rightarrow> process \<Rightarrow> (error + CompilationDatabase) \<times> process" where
  "compdbFor buildDirectory p st =
     (let (base, st1) = newUri buildDirectory st;
          (compileCommandsFile, st2) = newUri (path base @ ''/compile_commands.json'') st1
      in case mapGet (compdbs st2) compileCommandsFile of
           Some compdb \<Rightarrow> (Inr compdb, st2)
         | None \<Rightarrow>
             (case load p of
                Inl e \<Rightarrow> (Inl e, st2)
              | Inr cmds \<Rightarrow>
                  (let compdb = \<lparr>compileCancellationTokenSource = None,
                                 compileCommandsFile = compileCommandsFile,
                                 commands = cmds\<rparr>
                   in (Inr compdb,
                       st2\<lparr>compdbs := mapSet (compdbs st2) compileCommandsFile compdb\<rparr>))))"

section \<open>Overlapping calls of compile (compdb.ts, lines 71-102)\<close>

text \<open>
  \<^verbatim>\<open>compile\<close> is asynchronous: its statements up to the first \<^verbatim>\<open>await\<close> run without
  interruption, and so does each later stretch between two suspension points. Calls on
  one instance therefore interleave at those points, and the model is a transition
  function over the events of the runs:
  \<^item> \<open>Compile\<close>: a call whose lookup found a command runs lines 72-79: it cancels the
    token source stored in the instance, if any, creates its own and stores it. The run
    is named by its token source.
  \<^item> \<open>Chunk r\<close>: a relay loop of run \<open>r\<close> takes up a chunk and reads the token (lines 188
    and 202); when cancellation was requested the run throws, the \<^verbatim>\<open>finally\<close> block
    of line 100 runs, and the call fails.
  \<^item> \<open>Returned r\<close>: \<^verbatim>\<open>runCompiler\<close> of run \<open>r\<close> returns the assembly; the \<^verbatim>\<open>finally\<close>
    block runs and the call returns.
  \<^item> \<open>Failed r\<close>: \<^verbatim>\<open>runCompiler\<close> of run \<open>r\<close> throws for another reason; the
    \<^verbatim>\<open>finally\<close> block runs.
\<close>

datatype event = Compile | Chunk nat | Returned nat | Failed nat

record world =
  compdb :: CompilationDatabase
  nextSource :: nat
  cancelRequested :: "nat list"
  inFlight :: "nat list"
  produced :: "nat list"
  failed :: "nat list"

definition finallyClear :: "world \<Rightarrow> world" where
  "finallyClear w = w\<lparr>compdb := (compdb w)\<lparr>compileCancellationTokenSource := None\<rparr>\<rparr>"

fun step :: "world \<Rightarrow> event \<Rightarrow> world" where
  "step w Compile =
     (let requested =
            (case compileCancellationTokenSource (compdb w) of
               None \<Rightarrow> cancelRequested w
             | Some s \<Rightarrow> cancelRequested w @ [s]);
          ctokSource = nextSource w
      in w\<lparr>compdb := (compdb w)\<lparr>compileCancellationTokenSource := Some ctokSource\<rparr>,
            nextSource := ctokSource + 1,
            cancelRequested := requested,
            inFlight := inFlight w @ [ctokSource]\<rparr>)"
| "step w (Chunk r) =
     (if r \<in> set (inFlight w) \<and> r \<in> set (cancelRequested w)
      then finallyClear (w\<lparr>inFlight := removeAll r (inFlight w), failed := failed w @ [r]\<rparr>)
      else w)"
| "step w (Returned r) =
     (if r \<in> set (inFlight w)
      then finallyClear (w\<lparr>inFlight := removeAll r (inFlight w), produced := produced w @ [r]\<rparr>)
      else w)"
| "step w (Failed r) =
     (if r \<in> set (inFlight w)
      then finallyClear (w\<lparr>inFlight := removeAll r (inFlight w), failed := failed w @ [r]\<rparr>)
      else w)"

definition world0 :: "CompilationDatabase \<Rightarrow> world" where
  "world0 db = \<lparr>compdb = db\<lparr>compileCancellationTokenSource := None\<rparr>, nextSource = 0,
                cancelRequested = [], inFlight = [], produced = [], failed = []\<rparr>"

section \<open>The relay of runCompiler (compdb.ts, lines 172-174, 184-216, 291-308 and 401-410)\<close>

text \<open>
  The output channel: the lines appended to it, and whether it has been shown. Of the
  diagnostic lines the model records those about the standard errors of the processes:
  the lines of the listener of lines 172-174 and what \<^verbatim>\<open>checkStdErr\<close> appends. The
  other lines that \<^verbatim>\<open>runCompiler\<close> and its listeners append are not recorded.
\<close>

record OutputChannel =
  appended :: "string list"
  shown :: bool

text \<open>
  How a process ends, as \<^verbatim>\<open>onExit\<close> meets it. \<^verbatim>\<open>onExit\<close> registers its two listeners
  when it is called, and \<^verbatim>\<open>checkStdErr\<close> calls it only after its loop over the
  standard error has ended; an event emitted before that is lost to it.
  \<^item> \<open>Exit code\<close>: the \<^verbatim>\<open>exit\<close> event reaches the listener, with its code (\<^verbatim>\<open>null\<close>,
    here \<open>None\<close>, when a signal ended the process); the promise resolves with the code.
  \<^item> \<open>ErrorEvent\<close>: the \<^verbatim>\<open>error\<close> event reaches the listener; the promise rejects.
  \<^item> \<open>ExitUnheard code\<close>: the process has exited with that code before the listener was
    registered; the promise never settles, and the call of \<^verbatim>\<open>checkStdErr\<close> never
    returns.
  \<^item> \<open>ErrorUnheard\<close>: likewise for an \<^verbatim>\<open>error\<close> event emitted before the listener was
    registered.
\<close>

datatype exit_event =
  Exit "int option" | ErrorEvent | ExitUnheard "int option" | ErrorUnheard

text \<open>The truth value of the exit code in \<^verbatim>\<open>if (await onExit(process))\<close>.\<close>

definition truthy :: "int option \<Rightarrow> bool" where
  "truthy code = (case code of None \<Rightarrow> False | Some n \<Rightarrow> n \<noteq> 0)"

text \<open>
  \<^verbatim>\<open>checkStdErr\<close>, for a process given by the chunks that the loop of lines 293-295
  reads from its standard error and by the way it ends. It gives the channel it leaves
  and its result; the result \<open>None\<close> stands for a call that never returns.
\<close>

definition checkStdErr ::
  "string list \<Rightarrow> exit_event \<Rightarrow> OutputChannel \<Rightarrow> bool option \<times> OutputChannel" where
  "checkStdErr stderrChunks ev ch =
     (let stderr = concat stderrChunks;
          ch' = (if length stderr > 0
                 then ch\<lparr>appended := appended ch @ [stderr], shown := True\<rparr>
                 else ch)
      in case ev of
           Exit code \<Rightarrow> (if truthy code then (Some False, ch') else (Some True, ch'))
         | ErrorEvent \<Rightarrow> (Some False, ch')
         | ExitUnheard code \<Rightarrow> (None, ch')
         | ErrorUnheard \<Rightarrow> (None, ch'))"

text \<open>
  The two subprocesses are given by what they write and how they end. Every chunk of a
  standard output comes with the value that \<^verbatim>\<open>ctok.isCancellationRequested\<close> has when the
  loop body runs for that chunk.

  The standard error of the compiler has a \<^verbatim>\<open>data\<close> listener from the start (lines
  172-174), which logs every chunk and takes it off the stream, while \<^verbatim>\<open>checkStdErr\<close>
  starts to read that stream only when the relay of the standard output is over (line
  198). What the compiler writes to its standard error is therefore
  \<open>cxxStderrDrained @ cxxStderr\<close>: the chunks of \<open>cxxStderrDrained\<close> have gone to the
  listener alone before \<^verbatim>\<open>checkStdErr\<close> starts to read, those of \<open>cxxStderr\<close> come later
  and go to the listener and to the loop of \<^verbatim>\<open>checkStdErr\<close>. The standard error of the
  demangler has no listener, and \<^verbatim>\<open>checkStdErr\<close> reads all of it.

  \<^verbatim>\<open>splitLines\<close> is imported from a module that is not part of the sources at hand and
  is a parameter.
\<close>

record spawned =
  cxxStdout :: "(bool \<times> string) list"
  cxxStderrDrained :: "string list"
  cxxStderr :: "string list"
  cxxExit :: exit_event
  cxxfiltStdout :: "(bool \<times> string) list"
  cxxfiltStderr :: "string list"
  cxxfiltExit :: exit_event
  splitLines :: "string \<Rightarrow> string list"

text \<open>What the relay does to the outside: the chunks written to the demangler's input,
  whether that input was ended, the kills, and the channel.\<close>

record relay =
  stdinWritten :: "string list"
  stdinEnded :: bool
  cxxKilled :: bool
  cxxfiltKilled :: bool
  channel :: OutputChannel

definition relay0 :: "OutputChannel \<Rightarrow> relay" where
  "relay0 ch = \<lparr>stdinWritten = [], stdinEnded = False, cxxKilled = False,
                cxxfiltKilled = False, channel = ch\<rparr>"

text \<open>The first loop (lines 187-192).\<close>

fun relayStdout :: "(bool \<times> string) list \<Rightarrow> relay \<Rightarrow> error option \<times> relay" where
  "relayStdout [] st = (None, st)"
| "relayStdout ((isCancellationRequested, chunk) # rest) st =
     (if isCancellationRequested then (Some OperationCancelled, st)
      else relayStdout rest (st\<lparr>stdinWritten := stdinWritten st @ [chunk]\<rparr>))"

text \<open>The second loop (lines 200-204).\<close>

fun collectAsm :: "(bool \<times> string) list \<Rightarrow> string \<Rightarrow> error + string" where
  "collectAsm [] asm = Inr asm"
| "collectAsm ((isCancellationRequested, chunk) # rest) asm =
     (if isCancellationRequested then Inl OperationCancelled
      else collectAsm rest (asm @ chunk))"

text \<open>The filter of lines 207-210. \<^verbatim>\<open>trimStart\<close> removes leading white space.\<close>

definition isWhiteSpace :: "char \<Rightarrow> bool" where
  "isWhiteSpace c =
     (c = CHR 0x09 \<or> c = CHR 0x0A \<or> c = CHR 0x0B \<or> c = CHR 0x0C \<or> c = CHR 0x0D
      \<or> c = CHR 0x20 \<or> c = CHR 0xA0)"

definition startsWith :: "string \<Rightarrow> string \<Rightarrow> bool" where
  "startsWith s pre = (take (length pre) s = pre)"

fun joinLines :: "string list \<Rightarrow> string" where
  "joinLines [] = []"
| "joinLines [l] = l"
| "joinLines (l # ls) = l @ [CHR 0x0A] @ joinLines ls"

definition filterAsm :: "(string \<Rightarrow> string list) \<Rightarrow> string \<Rightarrow> string" where
  "filterAsm split asm =
     joinLines
       (filter (\<lambda>line. let line' = dropWhile isWhiteSpace line
                        in \<not> startsWith line' ''#'' \<and> \<not> startsWith line' '';'')
          (split asm))"

text \<open>The listener of lines 172-174, for the chunks it is given, in their order.\<close>

definition stderrListener :: "string list \<Rightarrow> OutputChannel \<Rightarrow> OutputChannel" where
  "stderrListener chunks ch =
     ch\<lparr>appended := appended ch @ map (\<lambda>data. ''stderr: '' @ data) chunks\<rparr>"

text \<open>
  The body of the \<^verbatim>\<open>try\<close> block (lines 185-210). Its outcome is \<open>None\<close> when it never
  ends, and otherwise the error thrown or the value returned. The lines of the listener
  are entered when the first loop is over: by then the drained chunks have been logged,
  and the later ones are logged as \<^verbatim>\<open>checkStdErr\<close> reads them, before it appends their
  concatenation.
\<close>

definition relayBody :: "spawned \<Rightarrow> relay \<Rightarrow> (error + string) option \<times> relay" where
  "relayBody sp st0 =
     (case relayStdout (cxxStdout sp) st0 of
        (Some e, st1) \<Rightarrow> (Some (Inl e), st1)
      | (None, st1) \<Rightarrow>
          (let st2 = st1\<lparr>stdinEnded := True,
                         channel := stderrListener (cxxStderrDrained sp @ cxxStderr sp)
                                      (channel st1)\<rparr>;
               (ok, ch) = checkStdErr (cxxStderr sp) (cxxExit sp) (channel st2);
               st3 = st2\<lparr>channel := ch\<rparr>
           in case ok of
                None \<Rightarrow> (None, st3)
              | Some False \<Rightarrow> (Some (Inl CompilationFailed), st3)
              | Some True \<Rightarrow>
                  (case collectAsm (cxxfiltStdout sp) [] of
                     Inl e \<Rightarrow> (Some (Inl e), st3)
                   | Inr asm \<Rightarrow>
                       (let (ok', ch') =
                              checkStdErr (cxxfiltStderr sp) (cxxfiltExit sp) (channel st3);
                            st4 = st3\<lparr>channel := ch'\<rparr>
                        in case ok' of
                             None \<Rightarrow> (None, st4)
                           | Some False \<Rightarrow> (Some (Inl CompilationFailed), st4)
                           | Some True \<Rightarrow>
                               (Some (Inr (filterAsm (splitLines sp) asm)), st4)))))"

text \<open>
  \<^verbatim>\<open>runCompiler\<close> from line 184 on: the \<^verbatim>\<open>try\<close> block and its \<^verbatim>\<open>catch\<close>, which kills
  both processes and throws the error again.
\<close>

definition runCompiler :: "spawned \<Rightarrow> OutputChannel \<Rightarrow> (error + string) option \<times> relay" where
  "runCompiler sp ch =
     (case relayBody sp (relay0 ch) of
        (Some (Inl e), st) \<Rightarrow> (Some (Inl e), st\<lparr>cxxKilled := True, cxxfiltKilled := True\<rparr>)
      | (Some (Inr asm), st) \<Rightarrow> (Some (Inr asm), st)
      | (None, st) \<Rightarrow> (None, st))"

section \<open>Finding the demangler (compdb.ts, lines 16 and 229-273)\<close>

definition cxxfiltExe :: string where
  "cxxfiltExe = ''c++filt''"

text \<open>
  The fields of \<^verbatim>\<open>Path.parse(compExe)\<close> that the function reads, and the platform it
  runs on: the \<^verbatim>\<open>path\<close> module, the directory listing (which can throw), the existence
  test, and the outcome of \<^verbatim>\<open>findExecutablePath\<close>, which asks an external program.
\<close>

record ParsedPath =
  dir :: string
  name :: string
  ext :: string

record platform =
  pathParse :: "string \<Rightarrow> ParsedPath"
  pathJoin :: "string list \<Rightarrow> string"
  pathResolve :: "string \<Rightarrow> string \<Rightarrow> string"
  readdir :: "string \<Rightarrow> error + string list"
  existsSync :: "string \<Rightarrow> bool"
  findExecutablePath :: "string \<Rightarrow> string option"

text \<open>The local function \<^verbatim>\<open>findExePath\<close> (lines 231-242).\<close>

definition findExePath :: "platform \<Rightarrow> ParsedPath \<Rightarrow> string option \<Rightarrow> error + string option" where
  "findExePath pf parsed d =
     (case d of
        None \<Rightarrow> Inr None
      | Some d' \<Rightarrow>
          (let cxxfiltNameWithExt = cxxfiltExe @ ext parsed
           in case readdir pf d' of
                Inl e \<Rightarrow> Inl e
              | Inr files \<Rightarrow>
                  (case find (\<lambda>f. endsWith f cxxfiltNameWithExt) files of
                     None \<Rightarrow> Inr None
                   | Some f \<Rightarrow> Inr (Some (pathResolve pf d' f)))))"

text \<open>The chain of \<^verbatim>\<open>replace\<close> calls of lines 262-267: each call works on the result of
  the call before it.\<close>

definition guessName :: "string \<Rightarrow> string" where
  "guessName n =
     replaceFirst ''cc'' cxxfiltExe
       (replaceFirst ''c++'' cxxfiltExe
          (replaceFirst ''gcc'' cxxfiltExe
             (replaceFirst ''g++'' cxxfiltExe
                (replaceFirst ''clang'' cxxfiltExe
                   (replaceFirst ''clang++'' cxxfiltExe n)))))"

definition findCxxFiltExe :: "platform \<Rightarrow> string \<Rightarrow> error + string" where
  "findCxxFiltExe pf compExe =
     (let parsed = pathParse pf compExe;
          compExeDir = (if length (dir parsed) = 0 then findExecutablePath pf compExe
                        else Some (dir parsed))
      in case findExePath pf parsed compExeDir of
           Inl e \<Rightarrow> Inl e
         | Inr (Some cxxfilt) \<Rightarrow> Inr cxxfilt
         | Inr None \<Rightarrow>
             (let parsed' = parsed\<lparr>name := guessName (name parsed)\<rparr>;
                  cxxfilt = pathJoin pf [dir parsed', name parsed', ext parsed']
              in if \<not> existsSync pf cxxfilt then Inr cxxfiltExe else Inr cxxfilt))"

text \<open>
  The rewriting as the specification words it, for comparison: the fragments are tried
  in their order, and the first one that occurs in the name is the only one replaced.
\<close>

fun occursIn :: "string \<Rightarrow> string \<Rightarrow> bool" where
  "occursIn pat [] = (pat = [])"
| "occursIn pat (c # cs) = (take (length pat) (c # cs) = pat \<or> occursIn pat cs)"

fun substituteFirstMatch :: "string list \<Rightarrow> string \<Rightarrow> string \<Rightarrow> string" where
  "substituteFirstMatch [] rep n = n"
| "substituteFirstMatch (frag # frags) rep n =
     (if occursIn frag n then replaceFirst frag rep n
      else substituteFirstMatch frags rep n)"

definition specGuessName :: "string \<Rightarrow> string" where
  "specGuessName n =
     substituteFirstMatch [''clang++'', ''clang'', ''g++'', ''gcc'', ''c++'', ''cc''] cxxfiltExe n"

section \<open>Properties of splitWhitespace\<close>

lemmas split_defs =
  splitWhitespace_def splitFinish_def splitStep_def splitAtSpace_def toggleQuote_def
  splitInit_def slice_def backslash_def squote_def dquote_def space_def

text \<open>
  C3, as the specification states it, fails: on \<^verbatim>\<open>gcc -O2 'foo bar.cpp' -o out\<close> the
  function does not return the token \<^verbatim>\<open>foo bar.cpp\<close> without its quotes.
\<close>

theorem splitWhitespace_example_unquoted_refuted:
  "splitWhitespace (''gcc -O2 '' @ [squote] @ ''foo bar.cpp'' @ [squote] @ '' -o out'')
     \<noteq> [''gcc'', ''-O2'', ''foo bar.cpp'', ''-o'', ''out'']"
  by (simp add: split_defs)

text \<open>
  C3 (amended): \<^verbatim>\<open>splitWhitespace\<close> applied to \<^verbatim>\<open>gcc -O2 'foo bar.cpp' -o out\<close>
  returns exactly five tokens; the single-quoted region is one token, and that token is
  the slice of the input with both quote characters kept:
  \<^verbatim>\<open>gcc\<close>, \<^verbatim>\<open>-O2\<close>, \<^verbatim>\<open>'foo bar.cpp'\<close>, \<^verbatim>\<open>-o\<close>, \<^verbatim>\<open>out\<close>.
\<close>

theorem splitWhitespace_example:
  "splitWhitespace (''gcc -O2 '' @ [squote] @ ''foo bar.cpp'' @ [squote] @ '' -o out'')
     = [''gcc'', ''-O2'', [squote] @ ''foo bar.cpp'' @ [squote], ''-o'', ''out'']"
  by (simp add: split_defs)

text \<open>
  Only a backslash changes \<open>shouldEscape\<close>: every backslash negates it, and every other
  character leaves it as it was, so the flag is not consumed by the character after the
  backslash.
\<close>

lemma shouldEscape_splitStep:
  "shouldEscape (splitStep str st ch) =
     (if ch = backslash then \<not> shouldEscape st else shouldEscape st)"
  by (simp add: splitStep_def toggleQuote_def splitAtSpace_def Let_def)

lemma shouldEscape_foldl:
  "shouldEscape (foldl (splitStep str) st cs) =
     (if even (length (filter (\<lambda>ch. ch = backslash) cs)) then shouldEscape st
      else \<not> shouldEscape st)"
  by (induction cs arbitrary: st) (simp_all add: shouldEscape_splitStep)

lemma quote_ignored_while_shouldEscape:
  assumes "shouldEscape st"
  shows "quoteChar (splitStep str st squote) = quoteChar st"
    and "quoteChar (splitStep str st dquote) = quoteChar st"
  using assms
  by (simp_all add: splitStep_def toggleQuote_def squote_def dquote_def backslash_def)

text \<open>
  C9, evaluated on the input \<^verbatim>\<open>\a 'b c'\<close>: the quote characters stand three and seven
  characters after the only backslash and still do not open or close a quote context, so
  the space between \<^verbatim>\<open>b\<close> and \<^verbatim>\<open>c\<close> splits. Had the flag covered the next character
  only, the result would be the two tokens \<^verbatim>\<open>\a\<close> and \<^verbatim>\<open>'b c'\<close>.
\<close>

theorem splitWhitespace_escape_persists:
  "splitWhitespace ([backslash] @ ''a '' @ [squote] @ ''b c'' @ [squote])
     = [[backslash] @ ''a'', [squote] @ ''b'', ''c'' @ [squote]]"
  by (simp add: split_defs)

section \<open>Properties of the stored compile commands\<close>

lemma filterArgs_flags:
  "''-c'' \<notin> set (filterArgs b xs) \<and> ''-g'' \<notin> set (filterArgs b xs) \<and> ''-o'' \<notin> set (filterArgs b xs)"
  by (induction xs arbitrary: b) auto

lemma slash_not_flag:
  assumes "CHR ''/'' \<in> set j"
  shows "j \<noteq> ''-o''" and "j \<noteq> ''-c''" and "j \<noteq> ''-g''"
  using assms by auto

lemma filterArgs_path:
  "CHR ''/'' \<in> set j \<Longrightarrow> filterArgs False (j # rest) = j # filterArgs False rest"
  using slash_not_flag [of j] by simp

lemma filterArgs_append:
  "xs \<noteq> [] \<Longrightarrow> last xs \<noteq> ''-o'' \<Longrightarrow> filterArgs b (xs @ ys) = filterArgs b xs @ filterArgs False ys"
proof (induction xs arbitrary: b)
  case Nil
  then show ?case by simp
next
  case (Cons x xs)
  show ?case
  proof (cases "xs = []")
    case True
    with Cons.prems show ?thesis by simp
  next
    case False
    with Cons.prems have "last xs \<noteq> ''-o''" by simp
    with False Cons.IH show ?thesis by simp
  qed
qed

lemma filterArgs_outfile_pairs:
  "filterArgs False (replicate (2 * k) ''-o'' @ zs) = filterArgs False zs"
  by (induction k) simp_all

lemma filterArgs_drop_outfile:
  assumes "xs = [] \<or> last xs \<noteq> ''-o''" and "CHR ''/'' \<in> set j"
  shows "filterArgs False (j # xs @ replicate (2 * k) ''-o'' @ ''-o'' # v # ys)
       = filterArgs False (j # xs @ replicate (2 * k) ''-o'' @ ys)"
proof -
  have l: "last (j # xs) \<noteq> ''-o''" using assms slash_not_flag(1) [of j] by auto
  have a1: "filterArgs False ((j # xs) @ zs) = filterArgs False (j # xs) @ filterArgs False zs" for zs
    using filterArgs_append [where xs = "j # xs" and b = False] l by blast
  have "filterArgs False (replicate (2 * k) ''-o'' @ ''-o'' # v # ys)
      = filterArgs False (replicate (2 * k) ''-o'' @ ys)"
    by (simp only: filterArgs_outfile_pairs) simp
  then have "filterArgs False ((j # xs) @ replicate (2 * k) ''-o'' @ ''-o'' # v # ys)
      = filterArgs False ((j # xs) @ replicate (2 * k) ''-o'' @ ys)"
    by (simp only: a1)
  then show ?thesis by simp
qed

lemma arguments_preprocessEntry:
  "arguments (preprocessEntry c) =
     filter (\<lambda>arg. arg \<noteq> file' c) (filterArgs False (joinFirst (directory c) (entryTokens c)))"
  by (simp add: preprocessEntry_def constructCompileCommand_def entryTokens_def)

text \<open>
  C4, as the specification states it, fails at three entries.
  \<^item> An entry whose recorded file name is the joined path of its own executable loses
    that path to the file-name filter of \<^verbatim>\<open>preprocess\<close>: the stored vector starts with
    another token.
  \<^item> In the tokens \<^verbatim>\<open>gcc -o -o a.o a.cpp\<close> the second \<^verbatim>\<open>-o\<close> is taken as the value of
    the first; the token \<^verbatim>\<open>a.o\<close>, which immediately follows an \<^verbatim>\<open>-o\<close>, is stored.
  \<^item> In the tokens \<^verbatim>\<open>-o a.o a.cpp\<close> the first token is joined with the directory before
    the filter runs and is no \<^verbatim>\<open>-o\<close> for it; the token \<^verbatim>\<open>a.o\<close> after it is stored.
\<close>

theorem preprocessEntry_arguments_refuted:
  "arguments (preprocessEntry \<lparr>directory = ''/build'', command = [], file' = ''/build/gcc'',
                               arguments = [''gcc'', ''-c'', ''x.cpp'']\<rparr>) = [''x.cpp'']
   \<and> arguments (preprocessEntry \<lparr>directory = ''/build'', command = [], file' = ''a.cpp'',
                               arguments = [''gcc'', ''-o'', ''-o'', ''a.o'', ''a.cpp'']\<rparr>)
       = [''/build/gcc'', ''a.o'']
   \<and> arguments (preprocessEntry \<lparr>directory = ''/build'', command = [], file' = ''a.cpp'',
                               arguments = [''-o'', ''a.o'', ''a.cpp'']\<rparr>)
       = [''/build/-o'', ''a.o'']"
  by (simp add: preprocessEntry_def constructCompileCommand_def joinFirst_def)

text \<open>
  C4 (amended): for every entry, the stored arguments vector contains no \<^verbatim>\<open>-c\<close>, no
  \<^verbatim>\<open>-g\<close>, no \<^verbatim>\<open>-o\<close> and no token equal to the entry's file name. Its first element is
  the join of the entry's directory with the entry's first token, unless that joined path
  equals the file name; for an entry without tokens the text \<^verbatim>\<open>undefined\<close> stands for the
  first token, and the joined path is then the only element. An \<^verbatim>\<open>-o\<close> token that stands
  behind the first token, and directly before which \<^verbatim>\<open>-o\<close> tokens stand in an unbroken
  row of even length, possibly zero (the first token is never counted), is dropped
  together with the token immediately following it: the stored vector is that of the
  entry without these two tokens.
\<close>

theorem preprocessEntry_arguments:
  "(entryTokens c = a # rest \<and> directory c @ ''/'' @ a \<noteq> file' c
      \<longrightarrow> arguments (preprocessEntry c) \<noteq> []
          \<and> hd (arguments (preprocessEntry c)) = directory c @ ''/'' @ a)
   \<and> (entryTokens c = [] \<and> directory c @ ''/'' @ ''undefined'' \<noteq> file' c
      \<longrightarrow> arguments (preprocessEntry c) = [directory c @ ''/'' @ ''undefined''])
   \<and> ''-c'' \<notin> set (arguments (preprocessEntry c))
   \<and> ''-g'' \<notin> set (arguments (preprocessEntry c))
   \<and> ''-o'' \<notin> set (arguments (preprocessEntry c))
   \<and> file' c \<notin> set (arguments (preprocessEntry c))
   \<and> (entryTokens c = a # xs @ replicate (2 * k) ''-o'' @ ''-o'' # v # ys
        \<and> (xs = [] \<or> last xs \<noteq> ''-o'')
      \<longrightarrow> arguments (preprocessEntry c)
          = arguments (preprocessEntry
              (c\<lparr>command := [], arguments := a # xs @ replicate (2 * k) ''-o'' @ ys\<rparr>)))"
proof (intro conjI impI)
  assume h: "entryTokens c = a # rest \<and> directory c @ ''/'' @ a \<noteq> file' c"
  then have "arguments (preprocessEntry c)
      = (directory c @ ''/'' @ a) # filter (\<lambda>arg. arg \<noteq> file' c) (filterArgs False rest)"
    by (simp add: arguments_preprocessEntry joinFirst_def filterArgs_path del: filterArgs.simps)
  then show "arguments (preprocessEntry c) \<noteq> []"
    and "hd (arguments (preprocessEntry c)) = directory c @ ''/'' @ a" by simp_all
next
  assume "entryTokens c = [] \<and> directory c @ ''/'' @ ''undefined'' \<noteq> file' c"
  then show "arguments (preprocessEntry c) = [directory c @ ''/'' @ ''undefined'']"
    by (simp add: arguments_preprocessEntry joinFirst_def filterArgs_path del: filterArgs.simps(2))
next
  show "''-c'' \<notin> set (arguments (preprocessEntry c))"
    using filterArgs_flags by (simp add: arguments_preprocessEntry)
  show "''-g'' \<notin> set (arguments (preprocessEntry c))"
    using filterArgs_flags by (simp add: arguments_preprocessEntry)
  show "''-o'' \<notin> set (arguments (preprocessEntry c))"
    using filterArgs_flags by (simp add: arguments_preprocessEntry)
  show "file' c \<notin> set (arguments (preprocessEntry c))"
    by (simp add: arguments_preprocessEntry)
next
  assume h: "entryTokens c = a # xs @ replicate (2 * k) ''-o'' @ ''-o'' # v # ys
        \<and> (xs = [] \<or> last xs \<noteq> ''-o'')"
  have "filterArgs False ((directory c @ ''/'' @ a) # xs @ replicate (2 * k) ''-o'' @ ''-o'' # v # ys)
       = filterArgs False ((directory c @ ''/'' @ a) # xs @ replicate (2 * k) ''-o'' @ ys)"
    by (rule filterArgs_drop_outfile) (use h in simp_all)
  with h show "arguments (preprocessEntry c)
          = arguments (preprocessEntry
              (c\<lparr>command := [], arguments := a # xs @ replicate (2 * k) ''-o'' @ ys\<rparr>))"
    by (simp add: arguments_preprocessEntry joinFirst_def entryTokens_def del: filterArgs.simps)
qed

theorem preprocessEntry_arguments_witness:
  "entryTokens \<lparr>directory = ''/build'', command = [], file' = ''a.cpp'',
                arguments = [''gcc'', ''-c'', ''a.cpp'', ''-g'', ''-o'', ''-o'', ''-o'', ''a.o'', ''-Wall'']\<rparr>
     = ''gcc'' # [''-c'', ''a.cpp'', ''-g''] @ replicate (2 * 1) ''-o'' @ ''-o'' # ''a.o'' # [''-Wall'']
   \<and> ''/build'' @ ''/'' @ ''gcc'' \<noteq> ''a.cpp''
   \<and> last [''-c'', ''a.cpp'', ''-g''] \<noteq> ''-o''
   \<and> entryTokens \<lparr>directory = ''/build'', command = '' '', file' = ''a.cpp'', arguments = []\<rparr> = []
   \<and> arguments (preprocessEntry \<lparr>directory = ''/build'', command = '' '', file' = ''a.cpp'',
          arguments = []\<rparr>) = [''/build/undefined'']
   \<and> hd (arguments (preprocessEntry \<lparr>directory = ''/build'', command = [], file' = ''a.cpp'',
          arguments = [''gcc'', ''-c'', ''a.cpp'', ''-g'', ''-o'', ''-o'', ''-o'', ''a.o'', ''-Wall'']\<rparr>))
       = ''/build/gcc''
   \<and> arguments (preprocessEntry \<lparr>directory = ''/build'', command = [], file' = ''a.cpp'',
          arguments = [''gcc'', ''-c'', ''a.cpp'', ''-g'', ''-o'', ''-o'', ''-o'', ''a.o'', ''-Wall'']\<rparr>)
       = arguments (preprocessEntry \<lparr>directory = ''/build'', command = [], file' = ''a.cpp'',
          arguments = [''gcc'', ''-c'', ''a.cpp'', ''-g'', ''-o'', ''-o'', ''-Wall'']\<rparr>)
   \<and> arguments (preprocessEntry \<lparr>directory = ''/build'', command = [], file' = ''a.cpp'',
          arguments = [''gcc'', ''-c'', ''a.cpp'', ''-g'', ''-o'', ''-o'', ''-o'', ''a.o'', ''-Wall'']\<rparr>)
       = [''/build/gcc'', ''-Wall'']"
  using preprocessEntry_arguments
    [where c = "\<lparr>directory = ''/build'', command = [], file' = ''a.cpp'',
                  arguments = [''gcc'', ''-c'', ''a.cpp'', ''-g'', ''-o'', ''-o'', ''-o'', ''a.o'', ''-Wall'']\<rparr>"
       and a = "''gcc''" and rest = "[''-c'', ''a.cpp'', ''-g'', ''-o'', ''-o'', ''-o'', ''a.o'', ''-Wall'']"
       and xs = "[''-c'', ''a.cpp'', ''-g'']" and k = 1 and v = "''a.o''" and ys = "[''-Wall'']"]
    preprocessEntry_arguments
    [where c = "\<lparr>directory = ''/build'', command = '' '', file' = ''a.cpp'', arguments = []\<rparr>"]
  by (simp add: entryTokens_def preprocessEntry_def constructCompileCommand_def joinFirst_def
      split_defs eval_nat_numeral)

section \<open>Properties of the lookup\<close>

lemma replaceFirst_absent:
  "(\<nexists>us vs. s = us @ pat @ vs) \<Longrightarrow> replaceFirst pat rep s = s"
proof (induction s)
  case Nil
  then show ?case by auto
next
  case (Cons c cs)
  have "take (length pat) (c # cs) \<noteq> pat"
  proof
    assume "take (length pat) (c # cs) = pat"
    then have "c # cs = [] @ pat @ drop (length pat) (c # cs)"
      by (metis append_Nil append_take_drop_id)
    with Cons.prems show False by blast
  qed
  moreover have "\<nexists>us vs. cs = us @ pat @ vs"
  proof
    assume "\<exists>us vs. cs = us @ pat @ vs"
    then obtain us vs where "cs = us @ pat @ vs" by blast
    then have "c # cs = (c # us) @ pat @ vs" by simp
    with Cons.prems show False by blast
  qed
  ultimately show ?case using Cons.IH by simp
qed

lemma replaceFirst_first:
  assumes "pat \<noteq> []"
    and "\<forall>us vs. xs @ pat @ zs = us @ pat @ vs \<longrightarrow> length xs \<le> length us"
  shows "replaceFirst pat rep (xs @ pat @ zs) = xs @ rep @ zs"
  using assms(2)
proof (induction xs)
  case Nil
  from assms(1) obtain p ps where p: "pat = p # ps" by (cases pat) auto
  then show ?case by simp
next
  case (Cons x xs)
  have ne: "take (length pat) (x # xs @ pat @ zs) \<noteq> pat"
  proof
    assume "take (length pat) (x # xs @ pat @ zs) = pat"
    then have "(x # xs) @ pat @ zs = [] @ pat @ drop (length pat) (x # xs @ pat @ zs)"
      by (metis append_Cons append_Nil append_take_drop_id)
    with Cons.prems have "length (x # xs) \<le> length ([]::string)" by blast
    then show False by simp
  qed
  have "\<forall>us vs. xs @ pat @ zs = us @ pat @ vs \<longrightarrow> length xs \<le> length us"
  proof (intro allI impI)
    fix us vs assume "xs @ pat @ zs = us @ pat @ vs"
    then have "(x # xs) @ pat @ zs = (x # us) @ pat @ vs" by simp
    with Cons.prems have "length (x # xs) \<le> length (x # us)" by blast
    then show "length xs \<le> length us" by simp
  qed
  with Cons.IH have "replaceFirst pat rep (xs @ pat @ zs) = xs @ rep @ zs" by blast
  with ne show ?case by simp
qed

text \<open>
  C10: the key that \<^verbatim>\<open>get\<close> looks up is the source path with the first occurrence of
  the build directory followed by \<^verbatim>\<open>/\<close> deleted, wherever in the path that occurrence
  stands; when there is no occurrence the key is the unmodified path, so the file is
  found exactly when the index has an entry under that full path.
\<close>

theorem get_key:
  "(fsPath = xs @ (buildDirectory @ ''/'') @ zs
      \<and> (\<forall>us vs. fsPath = us @ (buildDirectory @ ''/'') @ vs \<longrightarrow> length xs \<le> length us)
     \<longrightarrow> get db buildDirectory fsPath = commands db (xs @ zs))
   \<and> ((\<nexists>us vs. fsPath = us @ (buildDirectory @ ''/'') @ vs)
     \<longrightarrow> get db buildDirectory fsPath = commands db fsPath)"
proof (intro conjI impI)
  assume h: "fsPath = xs @ (buildDirectory @ ''/'') @ zs
      \<and> (\<forall>us vs. fsPath = us @ (buildDirectory @ ''/'') @ vs \<longrightarrow> length xs \<le> length us)"
  have "replaceFirst (buildDirectory @ ''/'') [] (xs @ (buildDirectory @ ''/'') @ zs) = xs @ [] @ zs"
    by (rule replaceFirst_first) (use h in auto)
  with h show "get db buildDirectory fsPath = commands db (xs @ zs)"
    by (simp add: get_def)
next
  assume "\<nexists>us vs. fsPath = us @ (buildDirectory @ ''/'') @ vs"
  then have "replaceFirst (buildDirectory @ ''/'') [] fsPath = fsPath"
    by (rule replaceFirst_absent)
  then show "get db buildDirectory fsPath = commands db fsPath"
    by (simp add: get_def)
qed

lemma occursIn_iff: "occursIn pat s \<longleftrightarrow> (\<exists>us vs. s = us @ pat @ vs)"
proof (induction s)
  case Nil
  then show ?case by auto
next
  case (Cons c cs)
  show ?case
  proof
    assume "occursIn pat (c # cs)"
    then consider "take (length pat) (c # cs) = pat" | "occursIn pat cs" by auto
    then show "\<exists>us vs. c # cs = us @ pat @ vs"
    proof cases
      case 1
      then have "c # cs = [] @ pat @ drop (length pat) (c # cs)"
        by (metis append_Nil append_take_drop_id)
      then show ?thesis by blast
    next
      case 2
      with Cons.IH obtain us vs where "cs = us @ pat @ vs" by blast
      then have "c # cs = (c # us) @ pat @ vs" by simp
      then show ?thesis by blast
    qed
  next
    assume "\<exists>us vs. c # cs = us @ pat @ vs"
    then obtain us vs where e: "c # cs = us @ pat @ vs" by blast
    show "occursIn pat (c # cs)"
    proof (cases us)
      case Nil
      with e have "take (length pat) (c # cs) = pat" by simp
      then show ?thesis by simp
    next
      case (Cons u us')
      with e have "cs = us' @ pat @ vs" by simp
      with Cons.IH have "occursIn pat cs" by blast
      then show ?thesis by simp
    qed
  qed
qed

lemma first_occurrence_example: "\<forall>us vs. ''/x/w/a.c'' = us @ (''/w'' @ ''/'') @ vs \<longrightarrow> length ''/x'' \<le> length us"
proof (intro allI impI)
  fix us vs :: string
  assume e: "''/x/w/a.c'' = us @ (''/w'' @ ''/'') @ vs"
  show "length ''/x'' \<le> length us"
  proof (rule ccontr)
    assume "\<not> length ''/x'' \<le> length us"
    then have "length us < 2" by simp
    then have "length us = 0 \<or> length us = 1" by arith
    then show False
    proof
      assume "length us = 0" with e show False by simp
    next
      assume "length us = 1"
      then obtain u where "us = [u]" by (cases us) auto
      with e show False by simp
    qed
  qed
qed

lemma no_occurrence_example: "\<nexists>us vs. ''/y/a.c'' = us @ (''/w'' @ ''/'') @ vs"
  using occursIn_iff [of "''/w/''" "''/y/a.c''"] by simp

theorem get_key_witness:
  "get \<lparr>compileCancellationTokenSource = None, compileCommandsFile = \<lparr>uref = 0, path = ''/w/compile_commands.json''\<rparr>,
        commands = [''/xa.c'' \<mapsto> \<lparr>directory = ''/w'', command = [], file' = ''/xa.c'', arguments = [''/w/cc'']\<rparr>]\<rparr>
      ''/w'' ''/x/w/a.c''
     = Some \<lparr>directory = ''/w'', command = [], file' = ''/xa.c'', arguments = [''/w/cc'']\<rparr>
   \<and> get \<lparr>compileCancellationTokenSource = None, compileCommandsFile = \<lparr>uref = 0, path = ''/w/compile_commands.json''\<rparr>,
        commands = [''/xa.c'' \<mapsto> \<lparr>directory = ''/w'', command = [], file' = ''/xa.c'', arguments = [''/w/cc'']\<rparr>]\<rparr>
      ''/w'' ''/y/a.c'' = None"
  using first_occurrence_example no_occurrence_example
    get_key [where fsPath = "''/x/w/a.c''" and xs = "''/x''" and zs = "''a.c''" and buildDirectory = "''/w''"]
    get_key [where fsPath = "''/y/a.c''" and buildDirectory = "''/w''"]
  by simp

section \<open>Properties of the reload\<close>

lemma indexCommands_fold_None:
  "foldl (\<lambda>m c. m(file' c \<mapsto> c)) m cs k = None \<longleftrightarrow> m k = None \<and> k \<notin> file' ` set cs"
  by (induction cs arbitrary: m) auto

lemma file_preprocessEntry: "file' (preprocessEntry c) = file' c"
  by (simp add: preprocessEntry_def)

lemma indexCommands_absent:
  "k \<notin> file' ` set cmds \<Longrightarrow> indexCommands (preprocess cmds) k = None"
proof -
  assume "k \<notin> file' ` set cmds"
  moreover have "file' ` set (preprocess cmds) = file' ` set cmds"
    by (simp add: preprocess_def image_image file_preprocessEntry)
  ultimately show ?thesis
    by (simp add: indexCommands_def indexCommands_fold_None)
qed

lemma onDidChange_failed: "isl p \<Longrightarrow> onDidChange p db = db"
  by (cases p) (simp_all add: onDidChange_def load_def)

lemma onDidChanges_failed: "\<forall>q\<in>set qs. isl q \<Longrightarrow> onDidChanges qs db = db"
  by (induction qs arbitrary: db) (simp_all add: onDidChanges_def onDidChange_failed)

lemma onDidChanges_append: "onDidChanges (ps @ qs) db = onDidChanges qs (onDidChanges ps db)"
  by (simp add: onDidChanges_def)

lemma onDidChanges_Cons: "onDidChanges (p # qs) db = onDidChanges qs (onDidChange p db)"
  by (simp add: onDidChanges_def)

text \<open>
  C8: a change signal whose reload fails leaves the instance as it was, index included;
  after any history of signals, the index is the one built from the contents of the last
  signal whose load succeeded, whatever the index was before and however many failing
  reloads follow. A successful reload replaces the whole mapping: a key that the new
  contents do not list is absent afterwards, also when the old index had it.
\<close>

theorem onDidChange_retains_last_good:
  "((\<forall>q\<in>set qs. isl q)
      \<longrightarrow> onDidChanges qs db = db
          \<and> commands (onDidChanges (ps @ Inr cmds # qs) db) = indexCommands (preprocess cmds))
   \<and> (k \<notin> file' ` set cmds \<longrightarrow> commands (onDidChange (Inr cmds) db) k = None)"
proof (intro conjI impI)
  assume q: "\<forall>q\<in>set qs. isl q"
  then show "onDidChanges qs db = db" by (rule onDidChanges_failed)
  have "onDidChanges (ps @ Inr cmds # qs) db = onDidChange (Inr cmds) (onDidChanges ps db)"
    using q by (simp add: onDidChanges_append onDidChanges_Cons onDidChanges_failed)
  then show "commands (onDidChanges (ps @ Inr cmds # qs) db) = indexCommands (preprocess cmds)"
    by (simp add: onDidChange_def load_def)
next
  assume "k \<notin> file' ` set cmds"
  then show "commands (onDidChange (Inr cmds) db) k = None"
    by (simp add: onDidChange_def load_def indexCommands_absent)
qed

theorem onDidChange_retains_last_good_witness:
  "''old.cpp'' \<notin> file' ` set [\<lparr>directory = ''/b'', command = ''cc -c a.cpp'', file' = ''a.cpp'', arguments = []\<rparr>]
   \<and> commands (onDidChanges [Inl ReadOrParseError]
        \<lparr>compileCancellationTokenSource = None,
          compileCommandsFile = \<lparr>uref = 1, path = ''/b/compile_commands.json''\<rparr>,
          commands = [''old.cpp'' \<mapsto> \<lparr>directory = ''/b'', command = [], file' = ''old.cpp'', arguments = [''/b/cc'']\<rparr>]\<rparr>)
        ''old.cpp''
       = Some \<lparr>directory = ''/b'', command = [], file' = ''old.cpp'', arguments = [''/b/cc'']\<rparr>
   \<and> commands (onDidChanges ([] @ Inr [\<lparr>directory = ''/b'', command = ''cc -c a.cpp'', file' = ''a.cpp'', arguments = []\<rparr>] # [Inl ReadOrParseError])
        \<lparr>compileCancellationTokenSource = None,
          compileCommandsFile = \<lparr>uref = 1, path = ''/b/compile_commands.json''\<rparr>,
          commands = [''old.cpp'' \<mapsto> \<lparr>directory = ''/b'', command = [], file' = ''old.cpp'', arguments = [''/b/cc'']\<rparr>]\<rparr>)
       = [''a.cpp'' \<mapsto> \<lparr>directory = ''/b'', command = [], file' = ''a.cpp'', arguments = [''/b/cc'']\<rparr>]
   \<and> commands (onDidChange (Inr [\<lparr>directory = ''/b'', command = ''cc -c a.cpp'', file' = ''a.cpp'', arguments = []\<rparr>])
        \<lparr>compileCancellationTokenSource = None,
          compileCommandsFile = \<lparr>uref = 1, path = ''/b/compile_commands.json''\<rparr>,
          commands = [''old.cpp'' \<mapsto> \<lparr>directory = ''/b'', command = [], file' = ''old.cpp'', arguments = [''/b/cc'']\<rparr>]\<rparr>)
        ''old.cpp'' = None"
  using onDidChange_retains_last_good
    [where qs = "[Inl ReadOrParseError]" and ps = "[]"
       and cmds = "[\<lparr>directory = ''/b'', command = ''cc -c a.cpp'', file' = ''a.cpp'', arguments = []\<rparr>]"
       and k = "''old.cpp''"
       and db = "\<lparr>compileCancellationTokenSource = None,
          compileCommandsFile = \<lparr>uref = 1, path = ''/b/compile_commands.json''\<rparr>,
          commands = [''old.cpp'' \<mapsto> \<lparr>directory = ''/b'', command = [], file' = ''old.cpp'', arguments = [''/b/cc'']\<rparr>]\<rparr>"]
  by (simp add: indexCommands_def preprocess_def preprocessEntry_def constructCompileCommand_def
      joinFirst_def split_defs)

section \<open>Properties of the relay\<close>

lemma relayStdout_clean:
  "\<forall>x\<in>set cs. \<not> fst x \<Longrightarrow>
     relayStdout cs st = (None, st\<lparr>stdinWritten := stdinWritten st @ map snd cs\<rparr>)"
  by (induction cs arbitrary: st) auto

lemma relayStdout_cancelled:
  "\<forall>x\<in>set pre. \<not> fst x \<Longrightarrow>
     relayStdout (pre @ (True, c) # post) st
       = (Some OperationCancelled, st\<lparr>stdinWritten := stdinWritten st @ map snd pre\<rparr>)"
  by (induction pre arbitrary: st) auto


lemma collectAsm_cancelled:
  "\<forall>x\<in>set pre. \<not> fst x \<Longrightarrow> collectAsm (pre @ (True, c) # post) acc = Inl OperationCancelled"
  by (induction pre arbitrary: acc) auto



lemma checkStdErr_split:
  "checkStdErr errs ev ch = (fst (checkStdErr errs ev ch), snd (checkStdErr errs ev ch))"
  by simp

lemma runCompiler_failure_kills:
  "fst (runCompiler sp ch) = Some (Inl e) \<Longrightarrow>
     cxxKilled (snd (runCompiler sp ch)) \<and> cxxfiltKilled (snd (runCompiler sp ch))"
  by (auto simp: runCompiler_def split: prod.splits sum.splits option.splits)

lemma runCompiler_cancel_first:
  assumes "cxxStdout sp = pre @ (True, c) # post" and "\<forall>x\<in>set pre. \<not> fst x"
  shows "runCompiler sp ch =
     (Some (Inl OperationCancelled),
      (relay0 ch)\<lparr>stdinWritten := map snd pre, cxxKilled := True, cxxfiltKilled := True\<rparr>)"
  using assms relayStdout_cancelled [OF assms(2), of c post "relay0 ch"]
  by (simp add: runCompiler_def relayBody_def relay0_def)

lemma relayStdout_relay0:
  assumes "\<forall>x\<in>set (cxxStdout sp). \<not> fst x"
  shows "relayStdout (cxxStdout sp)
           \<lparr>stdinWritten = [], stdinEnded = False, cxxKilled = False, cxxfiltKilled = False,
             channel = ch\<rparr>
         = (None, \<lparr>stdinWritten = map snd (cxxStdout sp), stdinEnded = False, cxxKilled = False,
                    cxxfiltKilled = False, channel = ch\<rparr>)"
  using relayStdout_clean [OF assms] by simp

lemma runCompiler_cancel_second:
  assumes "\<forall>x\<in>set (cxxStdout sp). \<not> fst x" and "cxxExit sp = Exit code" and "\<not> truthy code"
    and "cxxfiltStdout sp = pre @ (True, c) # post" and "\<forall>x\<in>set pre. \<not> fst x"
  shows "fst (runCompiler sp ch) = Some (Inl OperationCancelled)"
proof -
  have 2: "collectAsm (cxxfiltStdout sp) [] = Inl OperationCancelled"
    using assms(4) collectAsm_cancelled [OF assms(5)] by simp
  show ?thesis
    using assms(2,3)
    by (simp add: runCompiler_def relayBody_def relay0_def checkStdErr_def Let_def
        relayStdout_relay0 [OF assms(1)] 2)
qed

text \<open>
  C6: the token is read before each chunk is handled. When the first chunk of the
  compiler's output at which the token is seen cancelled comes after the chunks \<open>pre\<close>,
  exactly the chunks of \<open>pre\<close> have been written to the demangler's input, the run fails
  with the cancellation error, and both processes have been killed. When the compiler's
  output passes without cancellation and the compiler exits without error, a demangler
  chunk at which the token is seen cancelled has the same effect: the run fails with the
  cancellation error and both processes have been killed.
\<close>

theorem runCompiler_cancellation:
  "(cxxStdout sp = pre @ (True, c) # post \<and> (\<forall>x\<in>set pre. \<not> fst x)
      \<longrightarrow> fst (runCompiler sp ch) = Some (Inl OperationCancelled)
          \<and> stdinWritten (snd (runCompiler sp ch)) = map snd pre
          \<and> cxxKilled (snd (runCompiler sp ch)) \<and> cxxfiltKilled (snd (runCompiler sp ch)))
   \<and> ((\<forall>x\<in>set (cxxStdout sp'). \<not> fst x) \<and> cxxExit sp' = Exit code \<and> \<not> truthy code
        \<and> cxxfiltStdout sp' = pre' @ (True, c') # post' \<and> (\<forall>x\<in>set pre'. \<not> fst x)
      \<longrightarrow> fst (runCompiler sp' ch) = Some (Inl OperationCancelled)
          \<and> cxxKilled (snd (runCompiler sp' ch)) \<and> cxxfiltKilled (snd (runCompiler sp' ch)))"
proof (intro conjI impI)
  assume h: "cxxStdout sp = pre @ (True, c) # post \<and> (\<forall>x\<in>set pre. \<not> fst x)"
  then have r: "runCompiler sp ch =
     (Some (Inl OperationCancelled),
      (relay0 ch)\<lparr>stdinWritten := map snd pre, cxxKilled := True, cxxfiltKilled := True\<rparr>)"
    using runCompiler_cancel_first by blast
  show "fst (runCompiler sp ch) = Some (Inl OperationCancelled)" by (simp add: r)
  show "stdinWritten (snd (runCompiler sp ch)) = map snd pre" by (simp add: r)
  show "cxxKilled (snd (runCompiler sp ch))" by (simp add: r)
  show "cxxfiltKilled (snd (runCompiler sp ch))" by (simp add: r)
next
  assume h: "(\<forall>x\<in>set (cxxStdout sp'). \<not> fst x) \<and> cxxExit sp' = Exit code \<and> \<not> truthy code
        \<and> cxxfiltStdout sp' = pre' @ (True, c') # post' \<and> (\<forall>x\<in>set pre'. \<not> fst x)"
  then have r: "fst (runCompiler sp' ch) = Some (Inl OperationCancelled)"
    using runCompiler_cancel_second by blast
  then show "fst (runCompiler sp' ch) = Some (Inl OperationCancelled)" .
  from r show "cxxKilled (snd (runCompiler sp' ch))" and "cxxfiltKilled (snd (runCompiler sp' ch))"
    using runCompiler_failure_kills by blast+
qed

theorem runCompiler_cancellation_witness:
  "cxxStdout \<lparr>cxxStdout = [(False, ''a''), (True, ''b''), (False, ''c'')], cxxStderrDrained = [],
       cxxStderr = [],
       cxxExit = Exit (Some 0), cxxfiltStdout = [], cxxfiltStderr = [], cxxfiltExit = Exit (Some 0),
       splitLines = (\<lambda>s. [s])\<rparr> = [(False, ''a'')] @ (True, ''b'') # [(False, ''c'')]
   \<and> \<not> fst (False, ''a'')
   \<and> \<not> truthy (Some 0)
   \<and> \<not> fst (False, ''x'')
   \<and> runCompiler \<lparr>cxxStdout = [(False, ''a''), (True, ''b''), (False, ''c'')],
       cxxStderrDrained = [], cxxStderr = [],
       cxxExit = Exit (Some 0), cxxfiltStdout = [], cxxfiltStderr = [], cxxfiltExit = Exit (Some 0),
       splitLines = (\<lambda>s. [s])\<rparr> \<lparr>appended = [], shown = False\<rparr>
     = (Some (Inl OperationCancelled),
        \<lparr>stdinWritten = [''a''], stdinEnded = False, cxxKilled = True, cxxfiltKilled = True,
          channel = \<lparr>appended = [], shown = False\<rparr>\<rparr>)
   \<and> runCompiler \<lparr>cxxStdout = [(False, ''a'')], cxxStderrDrained = [], cxxStderr = [],
       cxxExit = Exit (Some 0), cxxfiltStdout = [(False, ''x''), (True, ''y'')], cxxfiltStderr = [],
       cxxfiltExit = Exit (Some 0), splitLines = (\<lambda>s. [s])\<rparr> \<lparr>appended = [], shown = False\<rparr>
     = (Some (Inl OperationCancelled),
        \<lparr>stdinWritten = [''a''], stdinEnded = True, cxxKilled = True, cxxfiltKilled = True,
          channel = \<lparr>appended = [], shown = False\<rparr>\<rparr>)"
  using runCompiler_cancellation
    [where sp = "\<lparr>cxxStdout = [(False, ''a''), (True, ''b''), (False, ''c'')],
       cxxStderrDrained = [], cxxStderr = [],
       cxxExit = Exit (Some 0), cxxfiltStdout = [], cxxfiltStderr = [], cxxfiltExit = Exit (Some 0),
       splitLines = (\<lambda>s. [s])\<rparr>"
       and pre = "[(False, ''a'')]" and c = "''b''" and post = "[(False, ''c'')]"
       and sp' = "\<lparr>cxxStdout = [(False, ''a'')], cxxStderrDrained = [], cxxStderr = [],
       cxxExit = Exit (Some 0), cxxfiltStdout = [(False, ''x''), (True, ''y'')], cxxfiltStderr = [],
       cxxfiltExit = Exit (Some 0), splitLines = (\<lambda>s. [s])\<rparr>"
       and code = "Some 0" and pre' = "[(False, ''x'')]" and c' = "''y''" and post' = "[]"
       and ch = "\<lparr>appended = [], shown = False\<rparr>"]
  by (simp add: runCompiler_def relayBody_def relay0_def checkStdErr_def truthy_def
      stderrListener_def)











section \<open>Overlapping runs\<close>

text \<open>
  C1, evaluated on three overlapping calls: run 1 starts while run 0 relays and cancels
  it; run 0 then takes up a chunk, sees the cancellation and fails, and its \<^verbatim>\<open>finally\<close>
  block empties the field that by then holds the token source of run 1; run 2 starts
  while run 1 still relays and finds nothing to cancel. Runs 1 and 2 are in flight
  together, neither is ever cancelled, both pass the check at their next chunk, and
  both return assembly.
\<close>

theorem compile_overlapping_runs_both_return:
  "inFlight (foldl step (world0 db) [Compile, Compile, Chunk 0, Compile]) = [1, 2]
   \<and> compileCancellationTokenSource (compdb (foldl step (world0 db) [Compile, Compile, Chunk 0])) = None
   \<and> cancelRequested (foldl step (world0 db)
        [Compile, Compile, Chunk 0, Compile, Chunk 1, Chunk 2, Returned 1, Returned 2]) = [0]
   \<and> produced (foldl step (world0 db)
        [Compile, Compile, Chunk 0, Compile, Chunk 1, Chunk 2, Returned 1, Returned 2]) = [1, 2]"
  by (simp add: world0_def finallyClear_def)

section \<open>Properties of the registry\<close>

lemma mapGet_fresh:
  "\<forall>(u, d)\<in>set m. uref u < uref k \<Longrightarrow> mapGet m k = None"
  by (induction m) auto

lemma mapSet_fresh:
  "\<forall>(u, d)\<in>set m. uref u < uref k \<Longrightarrow> mapSet m k v = m @ [(k, v)]"
  by (induction m) auto

text \<open>
  The key of a call is a new object, so it is no key of the registry: whenever the load
  succeeds, the call constructs an instance and adds it to the registry.
\<close>

lemma compdbFor_always_constructs:
  assumes "\<forall>(u, d)\<in>set (compdbs st). uref u < nextUri st"
  shows "compdbs (snd (compdbFor bd (Inr cmds) st))
     = compdbs st @
       [(\<lparr>uref = nextUri st + 1, path = bd @ ''/compile_commands.json''\<rparr>,
         \<lparr>compileCancellationTokenSource = None,
           compileCommandsFile = \<lparr>uref = nextUri st + 1, path = bd @ ''/compile_commands.json''\<rparr>,
           commands = indexCommands (preprocess cmds)\<rparr>)]"
proof -
  let ?k = "\<lparr>uref = nextUri st + 1, path = bd @ ''/compile_commands.json''\<rparr>"
  have f: "\<forall>(u, d)\<in>set (compdbs st). uref u < uref ?k" using assms by auto
  from mapGet_fresh [OF f] mapSet_fresh [OF f] show ?thesis
    by (simp add: compdbFor_def newUri_def load_def Let_def)
qed

text \<open>
  C2, evaluated on two calls for the same build directory, starting from the empty
  registry: after the second call the registry holds two entries for the one location
  \<^verbatim>\<open>/ws/compile_commands.json\<close>, under the two keys built by the two calls.
\<close>

theorem compdbFor_second_call_constructs_again:
  "map (\<lambda>(u, d). (uref u, path u))
     (compdbs (snd (compdbFor ''/ws'' (Inr [])
                 (snd (compdbFor ''/ws'' (Inr []) \<lparr>nextUri = 0, compdbs = []\<rparr>)))))
   = [(1, ''/ws/compile_commands.json''), (3, ''/ws/compile_commands.json'')]"
  by (simp add: compdbFor_def newUri_def load_def Let_def)

section \<open>Properties of the demangler search\<close>

text \<open>
  C5, evaluated: the chain of replacements works on its own output, so after
  \<^verbatim>\<open>clang++\<close>, \<^verbatim>\<open>clang\<close>, \<^verbatim>\<open>g++\<close> or \<^verbatim>\<open>gcc\<close> has been replaced by \<^verbatim>\<open>c++filt\<close>, the
  replacement of \<^verbatim>\<open>c++\<close> rewrites the text just inserted. For the compiler \<^verbatim>\<open>arm-gcc\<close>,
  given without directory, with no directory found on the search path and a file
  \<^verbatim>\<open>arm-c++filt\<close> present, the guessed name is \<^verbatim>\<open>arm-c++filtfilt\<close>; it does not exist,
  and the bare name is returned. Substituting the first matching fragment only gives
  \<^verbatim>\<open>arm-c++filt\<close>. The platform of the last conjunct answers as Node does for the
  arguments that occur: the parse of a name without directory and extension, and the
  join of an empty directory, that name and an empty extension.
\<close>

theorem guessName_rewrites_its_own_replacement:
  "guessName ''clang++'' = ''c++filtfilt''
   \<and> guessName ''gcc'' = ''c++filtfilt''
   \<and> guessName ''arm-gcc'' = ''arm-c++filtfilt''
   \<and> specGuessName ''arm-gcc'' = ''arm-c++filt''
   \<and> findCxxFiltExe
        \<lparr>pathParse = (\<lambda>p. \<lparr>dir = [], name = p, ext = []\<rparr>),
          pathJoin = concat,
          pathResolve = (\<lambda>d f. d @ ''/'' @ f),
          readdir = (\<lambda>d. Inl ReaddirError),
          existsSync = (\<lambda>p. p = ''arm-c++filt''),
          findExecutablePath = (\<lambda>exe. None)\<rparr>
        ''arm-gcc'' = Inr ''c++filt''"
  by (simp add: guessName_def specGuessName_def cxxfiltExe_def findCxxFiltExe_def findExePath_def)


end
